theory Spec2Isabelle
  imports Main "HOL-Library.Sublist" "HOL-Library.Word"
begin

section \<open>Strings, bytes and the Python built-ins the code relies on\<close>

text \<open>
  The decoded file content is a Python \<open>str\<close>: a sequence of Unicode code points, indexed
  and sliced by code point. It is modelled as a list of code points. The buffer handed to
  the parser is \<open>bytes(code, "utf8")\<close>, a list of bytes. Names, kinds, messages and rendered
  numbers are only concatenated and compared, never indexed; they are modelled as \<open>string\<close>,
  holding the UTF-8 bytes of the Python string.
\<close>

type_synonym unicode = "nat list"
type_synonym byte = "8 word"

definition unicode_of :: "string \<Rightarrow> unicode" where
  "unicode_of s = map of_char s"

text \<open>\<open>bytes(code, "utf8")\<close>: one to four bytes per code point.\<close>

definition utf8_char :: "nat \<Rightarrow> byte list" where
  "utf8_char cp =
     (if cp < 0x80 then [of_nat cp]
      else if cp < 0x800 then
        [of_nat (0xC0 + cp div 64), of_nat (0x80 + cp mod 64)]
      else if cp < 0x10000 then
        [of_nat (0xE0 + cp div 4096), of_nat (0x80 + cp div 64 mod 64),
         of_nat (0x80 + cp mod 64)]
      else
        [of_nat (0xF0 + cp div 262144), of_nat (0x80 + cp div 4096 mod 64),
         of_nat (0x80 + cp div 64 mod 64), of_nat (0x80 + cp mod 64)])"

definition utf8_encode :: "unicode \<Rightarrow> byte list" where
  "utf8_encode s = concat (map utf8_char s)"

text \<open>
  \<open>xs[a:b]\<close> for non-negative \<open>a\<close> and \<open>b\<close>. A Python slice never raises: bounds beyond the
  end are clamped and \<open>b \<le> a\<close> gives the empty sequence.
\<close>

definition py_slice :: "'a list \<Rightarrow> nat \<Rightarrow> nat \<Rightarrow> 'a list" where
  "py_slice xs a b = take (b - a) (drop a xs)"

text \<open>\<open>str(n)\<close> and \<open>f"{n}"\<close> for a non-negative integer: its decimal digits.\<close>

definition digit_char :: "nat \<Rightarrow> char" where
  "digit_char d = ''0123456789'' ! d"

fun str_nat :: "nat \<Rightarrow> string" where
  "str_nat n =
     (if n < 10 then [digit_char n]
      else str_nat (n div 10) @ [digit_char (n mod 10)])"

declare str_nat.simps [simp del]

text \<open>
  \<open>s.replace(old, new)\<close>: the non-overlapping occurrences of \<open>old\<close> are replaced from left
  to right; an empty \<open>old\<close> matches before every character and at the end.
\<close>

function py_replace :: "string \<Rightarrow> string \<Rightarrow> string \<Rightarrow> string" where
  "py_replace old new [] = (if old = [] then new else [])"
| "py_replace old new (c # cs) =
     (if old = [] then new @ c # py_replace old new cs
      else if prefix old (c # cs) then new @ py_replace old new (drop (length old) (c # cs))
      else c # py_replace old new cs)"
  by pat_completeness auto
termination
  by (relation "measure (\<lambda>(old, new, s). length s)") auto

section \<open>The syntax tree and the chunk record\<close>

text \<open>
  What the parser exposes of a node: \<open>type\<close>, \<open>start_point\<close> and \<open>end_point\<close> (zero-based
  row and column), \<open>start_byte\<close> and \<open>end_byte\<close> (offsets into the byte buffer that was
  parsed) and \<open>children\<close>. The coordinates are unsigned in the parser.
\<close>

datatype node = Node
  (node_type: string)
  (start_point: "nat \<times> nat")
  (end_point: "nat \<times> nat")
  (start_byte: nat)
  (end_byte: nat)
  (children: "node list")

text \<open>
  \<open>Path(file_path)\<close> with the three attributes the code reads: \<open>str(path)\<close>, \<open>path.name\<close>
  and \<open>path.stem\<close>, next to the argument \<open>file_path\<close> itself.
\<close>

record path =
  path_arg :: string
  path_str :: string
  path_name :: string
  path_stem :: string

text \<open>The dictionary appended for a match. \<open>function\<close> is always \<open>None\<close>.\<close>

record chunk =
  chunk_id :: string
  chunk_text :: unicode
  language :: string
  framework :: string
  module :: string
  function_field :: "string option"
  file_path :: string
  start_line :: nat
  end_line :: nat
  tags :: "string list"
  lines :: string

section \<open>The chunk extractor\<close>

definition get_text :: "unicode \<Rightarrow> node \<Rightarrow> unicode" where
  "get_text code node = py_slice code (start_byte node) (end_byte node)"

definition extractable_kinds :: "string list" where
  "extractable_kinds = [''class_declaration'', ''struct_declaration'', ''function_declaration'']"

text \<open>The body of the \<open>if\<close> in \<open>recurse\<close>: the chunk built from a matching node.\<close>

definition make_chunk :: "path \<Rightarrow> unicode \<Rightarrow> node \<Rightarrow> chunk" where
  "make_chunk p code node =
     (let chunk_text = get_text code node;
          chunk_id = path_name p @ ''::'' @ node_type node @ ''_'' @ str_nat (fst (start_point node));
          start_line = fst (start_point node) + 1;
          end_line = fst (end_point node) + 1;
          chunk_type = py_replace ''_declaration'' '''' (node_type node)
      in \<lparr> chunk_id = chunk_id,
           chunk_text = chunk_text,
           language = ''swift'',
           framework = ''swiftui'',
           module = path_stem p,
           function_field = None,
           file_path = path_str p,
           start_line = start_line,
           end_line = end_line,
           tags = [chunk_type],
           lines = str_nat start_line @ ''-'' @ str_nat end_line \<rparr>)"

text \<open>
  \<open>recurse\<close> appends to the list \<open>chunks\<close> of the enclosing call; the list is passed in
  and returned. \<open>depth\<close> is threaded as in the source, which never reads it. This is the
  walk where every call fits the interpreter's bound on the depth of calls; the bound is
  added to it by \<open>recurse_limited\<close> below.
\<close>

lemma size_child: "child \<in> set (children node) \<Longrightarrow> size child < size node"
  by (cases node) (auto simp: less_Suc_eq_le size_list_estimation')

function recurse :: "path \<Rightarrow> unicode \<Rightarrow> node \<Rightarrow> nat \<Rightarrow> chunk list \<Rightarrow> chunk list" where
  "recurse p code node depth chunks =
     (let chunks' =
        (if node_type node \<in> set extractable_kinds
         then chunks @ [make_chunk p code node]
         else chunks)
      in fold (\<lambda>child acc. recurse p code child (depth + 1) acc) (children node) chunks')"
  by pat_completeness auto
termination
  by (relation "measure (\<lambda>(p, code, node, depth, chunks). size node)")
     (auto simp: size_child)

declare recurse.simps [simp del]

text \<open>Lines 27 to 59: \<open>chunks = []\<close>, \<open>recurse(root_node)\<close>, \<open>return chunks\<close>.\<close>

definition extract_chunks :: "path \<Rightarrow> unicode \<Rightarrow> node \<Rightarrow> chunk list" where
  "extract_chunks p code root_node = recurse p code root_node 0 []"


section \<open>The source loader and the whole extraction\<close>

text \<open>
  What \<open>extract_code_chunks\<close> takes from outside the repository: the file system
  (\<open>read_bytes\<close>, \<open>Inl\<close> the message of the \<open>OSError\<close> for a missing or unreadable file),
  the text \<open>read_text\<close> makes of a file's bytes with \<open>encoding="utf-8"\<close> (\<open>None\<close> when it
  raises \<open>UnicodeDecodeError\<close>) and with \<open>errors="replace"\<close> (which has no such failure),
  and the parser.
\<close>

record env =
  read_bytes :: "string \<Rightarrow> string + byte list"
  decode_strict :: "byte list \<Rightarrow> unicode option"
  decode_replace :: "byte list \<Rightarrow> unicode"
  parse :: "byte list \<Rightarrow> node"

datatype py_error = OSError string | UnicodeDecodeError | RecursionError

datatype errors_mode = Strict | Replace

definition read_text :: "env \<Rightarrow> path \<Rightarrow> errors_mode \<Rightarrow> py_error + unicode" where
  "read_text env p mode =
     (case read_bytes env (path_str p) of
        Inl msg \<Rightarrow> Inl (OSError msg)
      | Inr bs \<Rightarrow>
          (case mode of
             Strict \<Rightarrow>
               (case decode_strict env bs of
                  None \<Rightarrow> Inl UnicodeDecodeError
                | Some code \<Rightarrow> Inr code)
           | Replace \<Rightarrow> Inr (decode_replace env bs)))"

text \<open>The warning sign and its variation selector, U+26A0 U+FE0F, in UTF-8.\<close>

definition warning_sign :: string where
  "warning_sign = [CHR 0xE2, CHR 0x9A, CHR 0xA0, CHR 0xEF, CHR 0xB8, CHR 0x8F]"

text \<open>
  Lines 17 to 23: the \<open>try\<close> with its \<open>except UnicodeDecodeError\<close>. The result is the text or
  the exception that leaves the function, and what was printed.
\<close>

definition load_source :: "env \<Rightarrow> path \<Rightarrow> (py_error + unicode) \<times> string list" where
  "load_source env p =
     (case read_text env p Strict of
        Inr code \<Rightarrow> (Inr code, [])
      | Inl e \<Rightarrow>
          (case e of
             UnicodeDecodeError \<Rightarrow>
               (case read_text env p Replace of
                  Inr code \<Rightarrow>
                    (Inr code, [warning_sign @ '' Non-UTF8 bytes replaced in '' @ path_arg p])
                | Inl e' \<Rightarrow> (Inl e', []))
           | OSError msg \<Rightarrow> (Inl e, [])
           | RecursionError \<Rightarrow> (Inl e, [])))"

definition extract_code_chunks :: "env \<Rightarrow> path \<Rightarrow> (py_error + chunk list) \<times> string list" where
  "extract_code_chunks env p =
     (case load_source env p of
        (Inl e, printed) \<Rightarrow> (Inl e, printed)
      | (Inr code, printed) \<Rightarrow>
          (let root_node = parse env (utf8_encode code)
           in (Inr (extract_chunks p code root_node), printed)))"

section \<open>The interpreter's call depth\<close>

text \<open>
  Every call of \<open>recurse\<close> takes a frame of the interpreter, one for each level of the tree,
  and the interpreter raises \<open>RecursionError\<close> when a call would exceed its limit (1000 by
  default, less the frames in use when \<open>recurse(root_node)\<close> is called). \<open>room\<close> is the
  number of frames that may still be taken at that call; \<open>depth\<close> is the number that
  \<open>recurse\<close> has taken above the current call. The body of the \<open>if\<close> calls \<open>get_text\<close> and
  reads attributes of the path, which take \<open>extra\<close> frames more, at least one.
  \<open>frames_needed\<close> is what a tree asks for: its height, with \<open>extra\<close> added below a matching
  node.
\<close>

fun frames_needed :: "nat \<Rightarrow> node \<Rightarrow> nat" where
  "frames_needed extra (Node ty sp ep sb eb cs) =
     max (if ty \<in> set extractable_kinds then 1 + extra else 1)
         (1 + fold max (map (frames_needed extra) cs) 0)"

text \<open>
  \<open>recurse\<close> with the limit: the exception of a nested call ends the loop over the children
  and the call itself.
\<close>

function recurse_limited ::
  "nat \<Rightarrow> nat \<Rightarrow> path \<Rightarrow> unicode \<Rightarrow> node \<Rightarrow> nat \<Rightarrow> chunk list \<Rightarrow> py_error + chunk list" where
  "recurse_limited room extra p code node depth chunks =
     (if room \<le> depth then Inl RecursionError
      else
        (let matched =
           (if node_type node \<in> set extractable_kinds
            then (if room < depth + 1 + extra then Inl RecursionError
                  else Inr (chunks @ [make_chunk p code node]))
            else Inr chunks)
         in fold (\<lambda>child acc.
                    case acc of
                      Inl e \<Rightarrow> Inl e
                    | Inr chunks' \<Rightarrow> recurse_limited room extra p code child (depth + 1) chunks')
              (children node) matched))"
  by pat_completeness auto
termination
  by (relation "measure (\<lambda>(room, extra, p, code, node, depth, chunks). size node)")
     (auto simp: size_child)

declare recurse_limited.simps [simp del]

definition extract_chunks_limited ::
  "nat \<Rightarrow> nat \<Rightarrow> path \<Rightarrow> unicode \<Rightarrow> node \<Rightarrow> py_error + chunk list" where
  "extract_chunks_limited room extra p code root_node =
     recurse_limited room extra p code root_node 0 []"

text \<open>
  \<open>extract_code_chunks\<close> with the limit. What was printed before the exception stays
  printed.
\<close>

definition extract_code_chunks_limited ::
  "nat \<Rightarrow> nat \<Rightarrow> env \<Rightarrow> path \<Rightarrow> (py_error + chunk list) \<times> string list" where
  "extract_code_chunks_limited room extra env p =
     (case load_source env p of
        (Inl e, printed) \<Rightarrow> (Inl e, printed)
      | (Inr code, printed) \<Rightarrow>
          (let root_node = parse env (utf8_encode code)
           in (extract_chunks_limited room extra p code root_node, printed)))"

section \<open>The query command\<close>

text \<open>
  An exception as the \<open>except Exception\<close> clause sees it: \<open>Exception msg\<close> is an instance of
  \<open>Exception\<close> or of a subclass, \<open>BaseException msg\<close> one outside \<open>Exception\<close>
  (\<open>KeyboardInterrupt\<close>, \<open>SystemExit\<close>, \<open>GeneratorExit\<close>); \<open>msg\<close> is \<open>str(e)\<close>.
\<close>

datatype py_exception = Exception string | BaseException string

text \<open>
  A record of the search: a dictionary read with \<open>get\<close>, so either key may be absent. The
  score is a float; its type is left open, with \<open>0\<close> the default of \<open>chunk.get('score', 0)\<close>.
\<close>

record 's hit =
  score :: "'s option"
  metadata :: "(string \<rightharpoonup> string) option"

text \<open>The dictionary \<open>query_racag_cli\<close> returns; \<open>error\<close> is absent on success.\<close>

record 's query_result =
  success :: bool
  query :: string
  results_count :: nat
  results :: "'s hit list"
  error :: "string option"
  message :: string

text \<open>
  \<open>embed_query\<close> and \<open>semantic_search\<close> are the two capabilities; either returns or raises.
  The outer \<open>case\<close> is the \<open>except Exception\<close> clause: an exception outside \<open>Exception\<close>
  leaves the function.
\<close>

definition query_racag_cli ::
  "(string \<Rightarrow> py_exception + 'v) \<Rightarrow> ('v \<Rightarrow> int \<Rightarrow> py_exception + 's hit list) \<Rightarrow>
   string \<Rightarrow> int \<Rightarrow> py_exception + 's query_result" where
  "query_racag_cli embed_query semantic_search question top_k =
     (let attempt =
        (case embed_query question of
           Inl e \<Rightarrow> Inl e
         | Inr query_embedding \<Rightarrow>
             (case semantic_search query_embedding top_k of
                Inl e \<Rightarrow> Inl e
              | Inr found \<Rightarrow>
                  Inr \<lparr> success = True,
                        query = question,
                        results_count = length found,
                        results = found,
                        error = None,
                        message = ''Retrieved '' @ str_nat (length found) @ '' relevant chunks'' \<rparr>))
      in case attempt of
           Inr r \<Rightarrow> Inr r
         | Inl (Exception msg) \<Rightarrow>
             Inr \<lparr> success = False,
                   query = question,
                   results_count = 0,
                   results = [],
                   error = Some msg,
                   message = ''Query failed: '' @ msg \<rparr>
         | Inl (BaseException msg) \<Rightarrow> Inl (BaseException msg))"

datatype output_format = Json | Text

record args =
  arg_query :: string
  arg_top_k :: int
  arg_format :: output_format

text \<open>
  What the process has done when it exits: the argument of each \<open>print\<close> to standard output
  and to standard error, in order, and the exit status.
\<close>

record process =
  stdout :: "string list"
  stderr :: "string list"
  exit_status :: int

text \<open>
  The \<open>for\<close> loop of the text format over \<open>enumerate(..., 1)\<close>: three \<open>print\<close> calls for each
  entry. \<open>format_3f\<close> is the float formatting \<open>{:.3f}\<close>.
\<close>

fun print_results :: "('s::zero \<Rightarrow> string) \<Rightarrow> nat \<Rightarrow> 's hit list \<Rightarrow> string list \<Rightarrow> string list" where
  "print_results format_3f i [] out = out"
| "print_results format_3f i (chunk # rest) out =
     (let meta = (case metadata chunk of None \<Rightarrow> Map.empty | Some m \<Rightarrow> m);
          out1 = out @ [str_nat i @ ''. ['' @
                   format_3f (case score chunk of None \<Rightarrow> 0 | Some s \<Rightarrow> s) @ ''] '' @
                   (case meta ''file_path'' of None \<Rightarrow> ''unknown'' | Some v \<Rightarrow> v)];
          out2 = out1 @ [''   Lines '' @ (case meta ''lines'' of None \<Rightarrow> ''?-?'' | Some v \<Rightarrow> v)];
          out3 = out2 @ ['''']
      in print_results format_3f (i + 1) rest out3)"

text \<open>
  \<open>main\<close> after \<open>parse_args\<close>. \<open>json_dumps\<close> is \<open>json.dumps(result, indent=2)\<close>. An exception
  that leaves \<open>query_racag_cli\<close> leaves \<open>main\<close> as well.
\<close>

definition main ::
  "(string \<Rightarrow> py_exception + 'v) \<Rightarrow> ('v \<Rightarrow> int \<Rightarrow> py_exception + 's hit list) \<Rightarrow>
   ('s query_result \<Rightarrow> string) \<Rightarrow> ('s::zero \<Rightarrow> string) \<Rightarrow> args \<Rightarrow> py_exception + process" where
  "main embed_query semantic_search json_dumps format_3f args =
     (case query_racag_cli embed_query semantic_search (arg_query args) (arg_top_k args) of
        Inl e \<Rightarrow> Inl e
      | Inr result \<Rightarrow>
          (case arg_format args of
             Json \<Rightarrow>
               Inr \<lparr> stdout = [json_dumps result], stderr = [],
                     exit_status = (if success result then 0 else 1) \<rparr>
           | Text \<Rightarrow>
               (if success result then
                  Inr \<lparr> stdout = print_results format_3f 1 (take 10 (results result))
                                   [''Query: '' @ query result,
                                    ''Results: '' @ str_nat (results_count result) @ [CHR 0x0A]],
                        stderr = [],
                        exit_status = (if success result then 0 else 1) \<rparr>
                else
                  Inr \<lparr> stdout = [], stderr = [''Error: '' @ message result],
                        exit_status = 1 \<rparr>)))"

text \<open>
  One entry of the listing as the specification describes it: rank, score to three
  decimal places, file path, then the line range, then an empty line.
\<close>

definition listing_entry :: "('s::zero \<Rightarrow> string) \<Rightarrow> nat \<Rightarrow> 's hit \<Rightarrow> string list" where
  "listing_entry format_3f rank chunk =
     [str_nat rank @ ''. ['' @ format_3f (case score chunk of None \<Rightarrow> 0 | Some s \<Rightarrow> s) @ ''] '' @
        (case metadata chunk of
           None \<Rightarrow> ''unknown''
         | Some m \<Rightarrow> (case m ''file_path'' of None \<Rightarrow> ''unknown'' | Some v \<Rightarrow> v)),
      ''   Lines '' @
        (case metadata chunk of
           None \<Rightarrow> ''?-?''
         | Some m \<Rightarrow> (case m ''lines'' of None \<Rightarrow> ''?-?'' | Some v \<Rightarrow> v)),
      '''']"

section \<open>The walk the specification describes\<close>

text \<open>
  Depth-first, pre-order: a node, then its children from first to last, each with its own
  subtree. \<open>descendants\<close> are the nodes nested inside a node.
\<close>

fun preorder :: "node \<Rightarrow> node list" where
  "preorder (Node ty sp ep sb eb cs) = Node ty sp ep sb eb cs # concat (map preorder cs)"

definition descendants :: "node \<Rightarrow> node list" where
  "descendants n = concat (map preorder (children n))"

definition extractable :: "node \<Rightarrow> bool" where
  "extractable n = (node_type n \<in> set extractable_kinds)"

text \<open>The key from which the identity of a chunk is derived: kind and zero-based start line.\<close>

definition id_key :: "node \<Rightarrow> string \<times> nat" where
  "id_key n = (node_type n, fst (start_point n))"

text \<open>
  What the parser guarantees of the trees it returns, and the code relies on without
  checking: a node ends no earlier than it starts, a child lies within its parent, and
  siblings follow each other without overlap. Points compare by row, then column.
\<close>

definition point_le :: "nat \<times> nat \<Rightarrow> nat \<times> nat \<Rightarrow> bool" where
  "point_le a b = (fst a < fst b \<or> (fst a = fst b \<and> snd a \<le> snd b))"

fun well_formed :: "node \<Rightarrow> bool" where
  "well_formed (Node ty sp ep sb eb cs) =
     (point_le sp ep \<and>
      (\<forall>c \<in> set cs. point_le sp (start_point c) \<and> point_le (end_point c) ep \<and> well_formed c) \<and>
      sorted_wrt (\<lambda>a b. point_le (end_point a) (start_point b)) cs)"

text \<open>
  The text a node spans, as the specification has it: the part of the parsed buffer
  between the node's start and end byte offsets.
\<close>

definition spanned_bytes :: "byte list \<Rightarrow> node \<Rightarrow> byte list" where
  "spanned_bytes buffer n = py_slice buffer (start_byte n) (end_byte n)"

text \<open>The suffix stripping of the specification: one trailing occurrence is removed.\<close>

definition strip_suffix_spec :: "string \<Rightarrow> string \<Rightarrow> string" where
  "strip_suffix_spec suf s = (if suffix suf s then take (length s - length suf) s else s)"

section \<open>Concrete files\<close>

text \<open>
  \<open>Login.swift\<close>: nine empty lines, then a function of five lines. The function starts on
  source line 10, row 9 for the parser.
\<close>

definition login_path :: path where
  "login_path = \<lparr> path_arg = ''./app/Login.swift'', path_str = ''app/Login.swift'',
                   path_name = ''Login.swift'', path_stem = ''Login'' \<rparr>"

definition login_code :: unicode where
  "login_code = replicate 9 10 @ unicode_of ''func f() {'' @ [10] @ unicode_of ''  a()'' @ [10] @
     unicode_of ''  b()'' @ [10] @ unicode_of ''  c()'' @ [10] @ unicode_of ''}'' @ [10]"

definition login_function :: node where
  "login_function = Node ''function_declaration'' (9, 0) (13, 1) 9 39 []"

definition login_tree :: node where
  "login_tree = Node ''source_file'' (0, 0) (14, 0) 0 40 [login_function]"

text \<open>
  \<open>A.swift\<close>: a class on rows 0 to 2 with a method on row 1.
  The text is \<open>class A {\<close>, \<open>  func f() {}\<close>, \<open>}\<close>.
\<close>

definition nested_path :: path where
  "nested_path = \<lparr> path_arg = ''A.swift'', path_str = ''A.swift'',
                    path_name = ''A.swift'', path_stem = ''A'' \<rparr>"

definition nested_code :: unicode where
  "nested_code = unicode_of ''class A {'' @ [10] @ unicode_of ''  func f() {}'' @ [10] @
     unicode_of ''}'' @ [10]"

definition nested_method :: node where
  "nested_method = Node ''function_declaration'' (1, 2) (1, 13) 12 23 []"

definition nested_class :: node where
  "nested_class = Node ''class_declaration'' (0, 0) (2, 1) 0 25
     [Node ''class_body'' (0, 8) (2, 1) 8 25 [nested_method]]"

definition nested_tree :: node where
  "nested_tree = Node ''source_file'' (0, 0) (3, 0) 0 26 [nested_class]"

text \<open>
  \<open>Cafe.swift\<close>: a comment holding the letter e with an acute accent (U+00E9, two bytes
  in UTF-8), then a function on the next line. The text is \<open>// \<close> and the letter,
  then \<open>func f() {}\<close>. The buffer parsed has 18 bytes; the function takes bytes 6 to 16
  of it, and code points 5 to 15 of the text.
\<close>

definition cafe_path :: path where
  "cafe_path = \<lparr> path_arg = ''Cafe.swift'', path_str = ''Cafe.swift'',
                  path_name = ''Cafe.swift'', path_stem = ''Cafe'' \<rparr>"

definition cafe_code :: unicode where
  "cafe_code = unicode_of ''// '' @ [0xE9, 10] @ unicode_of ''func f() {}'' @ [10]"

definition cafe_function :: node where
  "cafe_function = Node ''function_declaration'' (1, 0) (1, 11) 6 17 []"

definition cafe_tree :: node where
  "cafe_tree = Node ''source_file'' (0, 0) (2, 0) 0 18
     [Node ''comment'' (0, 0) (0, 5) 0 5 [], cafe_function]"

text \<open>
  A file system with three files, and the decoding and parsing of what they hold.
  \<open>A.swift\<close> is the class above, \<open>Empty.swift\<close> has no bytes, and \<open>Bad.swift\<close> holds the
  letter f followed by the byte FF, which is not UTF-8; any other name is missing. None of
  the files has a multi-byte sequence, so a byte from 80 on is an invalid one: strict
  decoding fails on it and the replacing decoder puts U+FFFD in its place. A buffer
  other than that of \<open>A.swift\<close> parses to a root without children.
\<close>

definition demo_read_bytes :: "string \<Rightarrow> string + byte list" where
  "demo_read_bytes name =
     (if name = ''A.swift'' then Inr (utf8_encode nested_code)
      else if name = ''Empty.swift'' then Inr []
      else if name = ''Bad.swift'' then Inr [0x66, 0xFF]
      else Inl ''[Errno 2] No such file or directory'')"

definition demo_decode_strict :: "byte list \<Rightarrow> unicode option" where
  "demo_decode_strict bs = (if list_all (\<lambda>b. b < 0x80) bs then Some (map unat bs) else None)"

definition demo_decode_replace :: "byte list \<Rightarrow> unicode" where
  "demo_decode_replace bs = map (\<lambda>b. if b < 0x80 then unat b else 0xFFFD) bs"

definition demo_parse :: "byte list \<Rightarrow> node" where
  "demo_parse buffer =
     (if buffer = utf8_encode nested_code then nested_tree
      else Node ''source_file'' (0, 0) (0, length buffer) 0 (length buffer) [])"

definition demo_env :: env where
  "demo_env = \<lparr> read_bytes = demo_read_bytes, decode_strict = demo_decode_strict,
                 decode_replace = demo_decode_replace, parse = demo_parse \<rparr>"

definition empty_path :: path where
  "empty_path = \<lparr> path_arg = ''Empty.swift'', path_str = ''Empty.swift'',
                   path_name = ''Empty.swift'', path_stem = ''Empty'' \<rparr>"

definition bad_path :: path where
  "bad_path = \<lparr> path_arg = ''./Bad.swift'', path_str = ''Bad.swift'',
                 path_name = ''Bad.swift'', path_stem = ''Bad'' \<rparr>"

definition missing_path :: path where
  "missing_path = \<lparr> path_arg = ''Gone.swift'', path_str = ''Gone.swift'',
                     path_name = ''Gone.swift'', path_stem = ''Gone'' \<rparr>"

text \<open>
  \<open>Deep.swift\<close>: the letter x inside 1200 pairs of parentheses on one line, 2402 bytes with
  the line feed. It has no declaration. \<open>parens i n\<close> is the tree of \<open>n\<close> such pairs around
  the letter, starting at column \<open>i\<close>; the tree of the file has 1202 levels.
\<close>

fun parens :: "nat \<Rightarrow> nat \<Rightarrow> node" where
  "parens i 0 = Node ''simple_identifier'' (0, i) (0, i + 1) i (i + 1) []"
| "parens i (Suc n) =
     Node ''tuple_expression'' (0, i) (0, i + 2 * n + 3) i (i + 2 * n + 3)
       [Node ''('' (0, i) (0, i + 1) i (i + 1) [],
        parens (i + 1) n,
        Node '')'' (0, i + 2 * n + 2) (0, i + 2 * n + 3) (i + 2 * n + 2) (i + 2 * n + 3) []]"

definition deep_path :: path where
  "deep_path = \<lparr> path_arg = ''Deep.swift'', path_str = ''Deep.swift'',
                  path_name = ''Deep.swift'', path_stem = ''Deep'' \<rparr>"

definition deep_code :: unicode where
  "deep_code = replicate 1200 40 @ [120] @ replicate 1200 41 @ [10]"

definition deep_bytes :: "byte list" where
  "deep_bytes = replicate 1200 0x28 @ [0x78] @ replicate 1200 0x29 @ [0x0A]"

definition deep_tree :: node where
  "deep_tree = Node ''source_file'' (0, 0) (1, 0) 0 2402 [parens 0 1200]"

definition deep_env :: env where
  "deep_env = \<lparr> read_bytes = (\<lambda>name. if name = ''Deep.swift'' then Inr deep_bytes
                                       else Inl ''[Errno 2] No such file or directory''),
                 decode_strict = demo_decode_strict,
                 decode_replace = demo_decode_replace,
                 parse = (\<lambda>buffer. if buffer = deep_bytes then deep_tree
                                    else Node ''source_file'' (0, 0) (0, length buffer) 0
                                           (length buffer) []) \<rparr>"

text \<open>
  Capabilities for the query command. Scores are held in thousandths, so that three
  decimal places print them exactly. The search returns twelve records whatever the
  bound; one embedding raises a \<open>ValueError\<close>, another calls \<open>sys.exit\<close> with a message,
  which raises \<open>SystemExit\<close>.
\<close>

definition demo_format_3f :: "nat \<Rightarrow> string" where
  "demo_format_3f n =
     str_nat (n div 1000) @ ''.'' @
     [digit_char (n div 100 mod 10), digit_char (n div 10 mod 10), digit_char (n mod 10)]"

definition demo_hit :: "nat \<Rightarrow> nat hit" where
  "demo_hit n = \<lparr> score = Some (900 - n),
                  metadata = Some [''file_path'' \<mapsto> ''A.swift'', ''lines'' \<mapsto> ''1-3''] \<rparr>"

definition demo_embed :: "string \<Rightarrow> py_exception + nat list" where
  "demo_embed question = Inr (map of_char question)"

definition demo_search :: "nat list \<Rightarrow> int \<Rightarrow> py_exception + nat hit list" where
  "demo_search v top_k = Inr (map demo_hit [0..<12])"

definition failing_embed :: "string \<Rightarrow> py_exception + nat list" where
  "failing_embed question = Inl (Exception ''empty query'')"

definition exiting_embed :: "string \<Rightarrow> py_exception + nat list" where
  "exiting_embed question = Inl (BaseException ''OPENAI_API_KEY is not set'')"

definition demo_json_dumps :: "nat query_result \<Rightarrow> string" where
  \<open>demo_json_dumps r = (if success r then ''{"success": true}'' else ''{"success": false}'')\<close>

section \<open>Properties of the built-ins\<close>

lemma str_nat_nonempty: "str_nat n \<noteq> []"
  by (subst str_nat.simps) simp

lemma digit_char_inj: "a < 10 \<Longrightarrow> b < 10 \<Longrightarrow> digit_char a = digit_char b \<Longrightarrow> a = b"
  unfolding digit_char_def
  by (subst (asm) nth_eq_iff_index_eq) simp_all

lemma str_nat_inj: "str_nat m = str_nat n \<Longrightarrow> m = n"
proof (induction m arbitrary: n rule: str_nat.induct)
  case (1 m)
  show ?case
  proof (cases "m < 10")
    case small: True
    show ?thesis
    proof (cases "n < 10")
      case True
      with small "1.prems" show ?thesis
        by (simp add: str_nat.simps[of m] str_nat.simps[of n] digit_char_inj)
    next
      case False
      with small "1.prems" show ?thesis
        by (simp add: str_nat.simps[of m] str_nat.simps[of n]
            str_nat_nonempty str_nat_nonempty[symmetric])
    qed
  next
    case big: False
    show ?thesis
    proof (cases "n < 10")
      case True
      with big "1.prems" show ?thesis
        by (simp add: str_nat.simps[of m] str_nat.simps[of n]
            str_nat_nonempty str_nat_nonempty[symmetric])
    next
      case False
      with big "1.prems" have "str_nat (m div 10) = str_nat (n div 10)"
        and d: "digit_char (m mod 10) = digit_char (n mod 10)"
        by (simp_all add: str_nat.simps[of m] str_nat.simps[of n])
      then have "m div 10 = n div 10" using "1.IH" big by simp
      moreover have "m mod 10 = n mod 10" using d by (simp add: digit_char_inj)
      ultimately show ?thesis by (metis div_mult_mod_eq)
    qed
  qed
qed

section \<open>The walk of the code is the pre-order walk\<close>

lemma preorder_unfold: "preorder n = n # concat (map preorder (children n))"
  by (cases n) simp

lemma fold_append_each:
  "(\<And>x acc. x \<in> set xs \<Longrightarrow> f x acc = acc @ g x) \<Longrightarrow> fold f xs acc = acc @ concat (map g xs)"
  by (induction xs arbitrary: acc) auto

lemma recurse_preorder:
  "recurse p code n d acc = acc @ map (make_chunk p code) (filter extractable (preorder n))"
proof (induction p code n d acc rule: recurse.induct)
  case (1 p code node depth chunks)
  let ?g = "\<lambda>c. map (make_chunk p code) (filter extractable (preorder c))"
  let ?acc = "if extractable node then chunks @ [make_chunk p code node] else chunks"
  have unfold: "recurse p code node depth chunks
        = fold (\<lambda>child acc. recurse p code child (depth + 1) acc) (children node) ?acc"
    by (subst recurse.simps) (simp add: Let_def extractable_def)
  have "fold (\<lambda>child acc. recurse p code child (depth + 1) acc) (children node) ?acc
        = ?acc @ concat (map ?g (children node))"
    by (rule fold_append_each) (rule "1.IH", simp_all)
  moreover have "filter extractable (preorder node)
        = (if extractable node then [node] else []) @
          concat (map (\<lambda>c. filter extractable (preorder c)) (children node))"
    by (subst preorder_unfold) (simp add: filter_concat comp_def)
  ultimately show ?case
    unfolding unfold by (simp add: map_concat comp_def)
qed

lemma extract_chunks_preorder:
  "extract_chunks p code root = map (make_chunk p code) (filter extractable (preorder root))"
  by (simp add: extract_chunks_def recurse_preorder)

lemma in_extract_chunks:
  "c \<in> set (extract_chunks p code root) \<longleftrightarrow>
   (\<exists>n \<in> set (preorder root). extractable n \<and> c = make_chunk p code n)"
  by (auto simp: extract_chunks_preorder)

lemma preorder_self: "n \<in> set (preorder n)"
  by (subst preorder_unfold) simp

lemma preorder_descendants: "preorder n = n # descendants n"
  by (subst preorder_unfold) (simp add: descendants_def)

lemma preorder_segment:
  "X \<in> set (preorder n) \<Longrightarrow> \<exists>pre post. preorder n = pre @ preorder X @ post"
proof (induction n rule: preorder.induct)
  case (1 ty sp ep sb eb cs)
  let ?n = "Node ty sp ep sb eb cs"
  show ?case
  proof (cases "X = ?n")
    case True
    then have "preorder ?n = [] @ preorder X @ []" by simp
    then show ?thesis by blast
  next
    case False
    with "1.prems" obtain c where c: "c \<in> set cs" "X \<in> set (preorder c)" by auto
    from "1.IH" [OF c] obtain pre post where seg: "preorder c = pre @ preorder X @ post" by blast
    from c(1) obtain cs1 cs2 where "cs = cs1 @ c # cs2" by (auto dest: split_list)
    then have "preorder ?n =
        (?n # concat (map preorder cs1) @ pre) @ preorder X @ (post @ concat (map preorder cs2))"
      using seg by simp
    then show ?thesis by blast
  qed
qed

lemma nested_chunks_in_order:
  assumes X: "X \<in> set (preorder root)" and Y: "Y \<in> set (descendants X)"
    and eX: "extractable X" and eY: "extractable Y"
  shows "\<exists>pre mid post. extract_chunks p code root
           = pre @ make_chunk p code X # mid @ make_chunk p code Y # post"
proof -
  from preorder_segment [OF X] obtain pre post
    where "preorder root = pre @ preorder X @ post" by blast
  moreover from Y obtain mid rest where "descendants X = mid @ Y # rest"
    by (auto dest: split_list)
  ultimately have "preorder root = pre @ X # mid @ Y # rest @ post"
    by (simp add: preorder_descendants)
  then have "extract_chunks p code root =
      map (make_chunk p code) (filter extractable pre) @ make_chunk p code X #
      map (make_chunk p code) (filter extractable mid) @ make_chunk p code Y #
      map (make_chunk p code) (filter extractable (rest @ post))"
    using eX eY by (simp add: extract_chunks_preorder)
  then show ?thesis by blast
qed

lemma point_le_refl: "point_le a a"
  by (simp add: point_le_def)

lemma point_le_trans: "point_le a b \<Longrightarrow> point_le b c \<Longrightarrow> point_le a c"
  by (auto simp: point_le_def)

lemma point_le_row: "point_le a b \<Longrightarrow> fst a \<le> fst b"
  by (auto simp: point_le_def)

lemma well_formed_unfold:
  "well_formed n \<longleftrightarrow>
     point_le (start_point n) (end_point n) \<and>
     (\<forall>c \<in> set (children n). point_le (start_point n) (start_point c) \<and>
         point_le (end_point c) (end_point n) \<and> well_formed c) \<and>
     sorted_wrt (\<lambda>a b. point_le (end_point a) (start_point b)) (children n)"
  by (cases n) simp

lemma well_formed_within:
  "well_formed n \<Longrightarrow> m \<in> set (preorder n) \<Longrightarrow>
     well_formed m \<and> point_le (start_point n) (start_point m) \<and> point_le (end_point m) (end_point n)"
proof (induction n rule: preorder.induct)
  case (1 ty sp ep sb eb cs)
  let ?n = "Node ty sp ep sb eb cs"
  show ?case
  proof (cases "m = ?n")
    case True
    with "1.prems"(1) show ?thesis by (simp add: point_le_refl)
  next
    case False
    with "1.prems" obtain c where c: "c \<in> set cs" "m \<in> set (preorder c)" by auto
    from "1.prems"(1) c(1) have wc: "well_formed c"
      and s: "point_le sp (start_point c)" and e: "point_le (end_point c) ep" by auto
    from "1.IH" [OF c(1) wc c(2)] have "well_formed m"
      and "point_le (start_point c) (start_point m)" "point_le (end_point m) (end_point c)"
      by simp_all
    with s e show ?thesis by (auto intro: point_le_trans)
  qed
qed

lemma sorted_wrt_concat_map:
  "(\<And>c. c \<in> set cs \<Longrightarrow> sorted_wrt R (f c)) \<Longrightarrow>
   sorted_wrt (\<lambda>a b. \<forall>x \<in> set (f a). \<forall>y \<in> set (f b). R x y) cs \<Longrightarrow>
   sorted_wrt R (concat (map f cs))"
  by (induction cs) (auto simp: sorted_wrt_append)

lemma well_formed_sorted:
  "well_formed n \<Longrightarrow> sorted_wrt (\<lambda>a b. point_le (start_point a) (start_point b)) (preorder n)"
proof (induction n rule: preorder.induct)
  case (1 ty sp ep sb eb cs)
  let ?n = "Node ty sp ep sb eb cs"
  let ?R = "\<lambda>a b. point_le (start_point a) (start_point b)"
  have wf_c: "well_formed c" if "c \<in> set cs" for c using "1.prems" that by simp
  have first: "?R ?n m" if "m \<in> set (concat (map preorder cs))" for m
    using well_formed_within [OF "1.prems", of m] that by simp
  have each: "sorted_wrt ?R (preorder c)" if "c \<in> set cs" for c
    using "1.IH" [OF that] wf_c [OF that] .
  have sib: "sorted_wrt (\<lambda>a b. point_le (end_point a) (start_point b)) cs"
    using "1.prems" by simp
  have across: "sorted_wrt (\<lambda>a b. \<forall>x \<in> set (preorder a). \<forall>y \<in> set (preorder b). ?R x y) cs"
  proof (rule sorted_wrt_mono_rel [OF _ sib])
    fix a b assume a: "a \<in> set cs" and b: "b \<in> set cs"
      and ab: "point_le (end_point a) (start_point b)"
    show "\<forall>x \<in> set (preorder a). \<forall>y \<in> set (preorder b). ?R x y"
    proof (intro ballI)
      fix x y assume x: "x \<in> set (preorder a)" and y: "y \<in> set (preorder b)"
      from well_formed_within [OF wf_c [OF a] x]
      have "well_formed x" and xa: "point_le (end_point x) (end_point a)" by simp_all
      then have xx: "point_le (start_point x) (end_point x)"
        by (simp add: well_formed_unfold [of x])
      from well_formed_within [OF wf_c [OF b] y]
      have "point_le (start_point b) (start_point y)" by simp
      with xx xa ab show "?R x y" by (blast intro: point_le_trans)
    qed
  qed
  have "sorted_wrt ?R (concat (map preorder cs))"
    using each across by (rule sorted_wrt_concat_map)
  with first show ?case by simp
qed

lemma sorted_start_lines:
  assumes "well_formed root"
  shows "sorted (map start_line (extract_chunks p code root))"
proof -
  let ?R = "\<lambda>a b. point_le (start_point a) (start_point b)"
  have "sorted_wrt ?R (filter extractable (preorder root))"
    using well_formed_sorted [OF assms] by (rule sorted_wrt_filter)
  then have "sorted_wrt (\<lambda>a b. start_line (make_chunk p code a) \<le> start_line (make_chunk p code b))
      (filter extractable (preorder root))"
    by (rule sorted_wrt_mono_rel [rotated]) (auto simp: make_chunk_def Let_def dest: point_le_row)
  then show ?thesis
    by (simp add: extract_chunks_preorder sorted_wrt_map comp_def)
qed

lemma nested_span:
  assumes wf: "well_formed root" and X: "X \<in> set (preorder root)" and Y: "Y \<in> set (descendants X)"
  shows "start_line (make_chunk p code X) \<le> start_line (make_chunk p code Y) \<and>
         end_line (make_chunk p code Y) \<le> end_line (make_chunk p code X)"
proof -
  from well_formed_within [OF wf X] have "well_formed X" by simp
  moreover from Y have "Y \<in> set (preorder X)" by (simp add: preorder_descendants)
  ultimately have "point_le (start_point X) (start_point Y)" "point_le (end_point Y) (end_point X)"
    using well_formed_within [of X Y] by simp_all
  then show ?thesis by (auto simp: make_chunk_def Let_def dest: point_le_row)
qed

section \<open>Chunk identity\<close>

lemma chunk_id_key:
  assumes "extractable a" "extractable b"
    and "chunk_id (make_chunk p code a) = chunk_id (make_chunk p code b)"
  shows "id_key a = id_key b"
proof -
  from assms(3) have eq: "node_type a @ ''_'' @ str_nat (fst (start_point a))
      = node_type b @ ''_'' @ str_nat (fst (start_point b))"
    by (simp add: make_chunk_def Let_def)
  from assms(1,2) have "node_type a \<in> set extractable_kinds" "node_type b \<in> set extractable_kinds"
    by (simp_all add: extractable_def)
  with eq have "node_type a = node_type b \<and> str_nat (fst (start_point a)) = str_nat (fst (start_point b))"
    by (auto simp: extractable_kinds_def)
  then show ?thesis by (auto simp: id_key_def dest: str_nat_inj)
qed

lemma login_chunks:
  "extract_chunks login_path login_code login_tree = [make_chunk login_path login_code login_function]"
  by (simp add: extract_chunks_preorder login_tree_def login_function_def extractable_def
      extractable_kinds_def)

lemma nested_nodes:
  "filter extractable (preorder nested_tree) = [nested_class, nested_method]"
  by (simp add: nested_tree_def nested_class_def nested_method_def extractable_def
      extractable_kinds_def)

lemma nested_chunks:
  "extract_chunks nested_path nested_code nested_tree =
     [make_chunk nested_path nested_code nested_class, make_chunk nested_path nested_code nested_method]"
  by (simp add: extract_chunks_preorder nested_nodes)

text \<open>
  Claim C2. Every extracted chunk comes from a node of an extractable kind, and its
  \<open>chunk_id\<close> is the file's base name, two colons, the node's kind, an underscore and the
  node's zero-based start line in decimal. A chunk whose \<open>start_line\<close> is 10 has a
  \<open>chunk_id\<close> ending in \<open>_9\<close>.
\<close>

theorem chunk_id_format:
  "c \<in> set (extract_chunks p code root) \<Longrightarrow>
     (\<exists>n \<in> set (preorder root). extractable n \<and> c = make_chunk p code n \<and>
        chunk_id c = path_name p @ ''::'' @ node_type n @ ''_'' @ str_nat (fst (start_point n)) \<and>
        start_line c = fst (start_point n) + 1) \<and>
     (start_line c = 10 \<longrightarrow> suffix ''_9'' (chunk_id c))"
proof -
  assume "c \<in> set (extract_chunks p code root)"
  then obtain n where n: "n \<in> set (preorder root)" "extractable n" "c = make_chunk p code n"
    by (auto simp: in_extract_chunks)
  have id: "chunk_id c = path_name p @ ''::'' @ node_type n @ ''_'' @ str_nat (fst (start_point n))"
    and line: "start_line c = fst (start_point n) + 1"
    using n(3) by (simp_all add: make_chunk_def Let_def)
  have "suffix ''_9'' (chunk_id c)" if "start_line c = 10"
  proof -
    from that line have "fst (start_point n) = 9" by simp
    then have "chunk_id c = (path_name p @ ''::'' @ node_type n) @ ''_9''"
      using id by (simp add: str_nat.simps digit_char_def)
    then show ?thesis unfolding suffix_def by blast
  qed
  with n id line show ?thesis by blast
qed

theorem chunk_id_format_witness:
  "make_chunk login_path login_code login_function
     \<in> set (extract_chunks login_path login_code login_tree) \<and>
   chunk_id (make_chunk login_path login_code login_function)
     = ''Login.swift::function_declaration_9'' \<and>
   start_line (make_chunk login_path login_code login_function) = 10 \<and>
   suffix ''_9'' (chunk_id (make_chunk login_path login_code login_function))"
proof -
  let ?c = "make_chunk login_path login_code login_function"
  have mem: "?c \<in> set (extract_chunks login_path login_code login_tree)"
    by (simp add: login_chunks)
  have line: "start_line ?c = 10"
    by (simp add: make_chunk_def Let_def login_function_def)
  have id: "chunk_id ?c = ''Login.swift::function_declaration_9''"
    by (simp add: make_chunk_def Let_def login_path_def login_function_def
        str_nat.simps digit_char_def)
  from chunk_id_format [OF mem] line have "suffix ''_9'' (chunk_id ?c)" by blast
  with mem line id show ?thesis by blast
qed

text \<open>
  Claim C3. When no two extractable nodes of the tree have the same kind and the same
  start line, the \<open>chunk_id\<close> values of the chunks of one extraction are pairwise distinct.
\<close>

theorem chunk_ids_distinct:
  "distinct (map id_key (filter extractable (preorder root))) \<Longrightarrow>
   distinct (map chunk_id (extract_chunks p code root))"
proof -
  let ?ns = "filter extractable (preorder root)"
  assume d: "distinct (map id_key ?ns)"
  then have dn: "distinct ?ns" and inj: "inj_on id_key (set ?ns)"
    by (simp_all only: distinct_map)
  have "inj_on (\<lambda>n. chunk_id (make_chunk p code n)) (set ?ns)"
  proof (rule inj_onI)
    fix a b assume a: "a \<in> set ?ns" and b: "b \<in> set ?ns"
      and eq: "chunk_id (make_chunk p code a) = chunk_id (make_chunk p code b)"
    from a b have ea: "extractable a" and eb: "extractable b" by simp_all
    from ea eb eq have "id_key a = id_key b" by (rule chunk_id_key)
    with inj a b show "a = b" by (blast dest: inj_onD)
  qed
  with dn have "distinct (map (\<lambda>n. chunk_id (make_chunk p code n)) ?ns)"
    by (simp only: distinct_map)
  then show ?thesis by (simp add: extract_chunks_preorder comp_def)
qed

theorem chunk_ids_distinct_witness:
  "distinct (map id_key (filter extractable (preorder nested_tree))) \<and>
   map chunk_id (extract_chunks nested_path nested_code nested_tree)
     = [''A.swift::class_declaration_0'', ''A.swift::function_declaration_1''] \<and>
   distinct (map chunk_id (extract_chunks nested_path nested_code nested_tree))"
proof -
  have k: "distinct (map id_key (filter extractable (preorder nested_tree)))"
    by (simp add: nested_nodes) (simp add: id_key_def nested_class_def nested_method_def)
  have ids: "map chunk_id (extract_chunks nested_path nested_code nested_tree)
     = [''A.swift::class_declaration_0'', ''A.swift::function_declaration_1'']"
    by (simp add: nested_chunks)
       (simp add: make_chunk_def Let_def nested_path_def nested_class_def nested_method_def
          str_nat.simps digit_char_def)
  from chunk_ids_distinct [OF k] ids k show ?thesis by blast
qed

section \<open>Traversal order and nesting\<close>

text \<open>
  Claim C4. The chunks returned are those of the extractable nodes in depth-first
  pre-order, one per node, in that order. For an extractable node \<open>Y\<close> nested inside an
  extractable node \<open>X\<close> of the tree, the result holds the chunk of \<open>X\<close> and, later, the chunk
  of \<open>Y\<close>; on a tree as the parser returns it, the line span of \<open>Y\<close> lies within that of \<open>X\<close>,
  and the start lines of the returned sequence never decrease.
\<close>

theorem extraction_is_preorder_walk:
  "extract_chunks p code root = map (make_chunk p code) (filter extractable (preorder root)) \<and>
   (\<forall>X Y. X \<in> set (preorder root) \<and> Y \<in> set (descendants X) \<and> extractable X \<and> extractable Y \<longrightarrow>
      (\<exists>pre mid post. extract_chunks p code root
          = pre @ make_chunk p code X # mid @ make_chunk p code Y # post) \<and>
      (well_formed root \<longrightarrow>
         start_line (make_chunk p code X) \<le> start_line (make_chunk p code Y) \<and>
         end_line (make_chunk p code Y) \<le> end_line (make_chunk p code X))) \<and>
   (well_formed root \<longrightarrow> sorted (map start_line (extract_chunks p code root)))"
proof (intro conjI allI impI)
  show "extract_chunks p code root = map (make_chunk p code) (filter extractable (preorder root))"
    by (rule extract_chunks_preorder)
next
  fix X Y
  assume "X \<in> set (preorder root) \<and> Y \<in> set (descendants X) \<and> extractable X \<and> extractable Y"
  then show "\<exists>pre mid post. extract_chunks p code root
      = pre @ make_chunk p code X # mid @ make_chunk p code Y # post"
    by (blast intro: nested_chunks_in_order)
next
  fix X Y
  assume "X \<in> set (preorder root) \<and> Y \<in> set (descendants X) \<and> extractable X \<and> extractable Y"
    and "well_formed root"
  then have s: "start_line (make_chunk p code X) \<le> start_line (make_chunk p code Y) \<and>
      end_line (make_chunk p code Y) \<le> end_line (make_chunk p code X)"
    using nested_span [of root X Y p code] by simp
  from s show "start_line (make_chunk p code X) \<le> start_line (make_chunk p code Y)" ..
  from s show "end_line (make_chunk p code Y) \<le> end_line (make_chunk p code X)" ..
next
  assume "well_formed root"
  then show "sorted (map start_line (extract_chunks p code root))"
    by (rule sorted_start_lines)
qed

theorem extraction_is_preorder_walk_witness:
  "nested_class \<in> set (preorder nested_tree) \<and>
   nested_method \<in> set (descendants nested_class) \<and>
   extractable nested_class \<and> extractable nested_method \<and> well_formed nested_tree \<and>
   extract_chunks nested_path nested_code nested_tree =
     [make_chunk nested_path nested_code nested_class,
      make_chunk nested_path nested_code nested_method] \<and>
   (\<exists>pre mid post. extract_chunks nested_path nested_code nested_tree
      = pre @ make_chunk nested_path nested_code nested_class # mid @
        make_chunk nested_path nested_code nested_method # post) \<and>
   start_line (make_chunk nested_path nested_code nested_class)
     \<le> start_line (make_chunk nested_path nested_code nested_method) \<and>
   end_line (make_chunk nested_path nested_code nested_method)
     \<le> end_line (make_chunk nested_path nested_code nested_class) \<and>
   map start_line (extract_chunks nested_path nested_code nested_tree) = [1, 2] \<and>
   map end_line (extract_chunks nested_path nested_code nested_tree) = [3, 2] \<and>
   sorted (map start_line (extract_chunks nested_path nested_code nested_tree))"
proof -
  have X: "nested_class \<in> set (preorder nested_tree)"
    by (simp add: nested_tree_def nested_class_def preorder_self)
  have Y: "nested_method \<in> set (descendants nested_class)"
    by (simp add: descendants_def nested_class_def nested_method_def)
  have e: "extractable nested_class" "extractable nested_method"
    by (simp_all add: extractable_def extractable_kinds_def nested_class_def nested_method_def)
  have wf: "well_formed nested_tree"
    by (simp add: nested_tree_def nested_class_def nested_method_def point_le_def)
  have lines: "map start_line (extract_chunks nested_path nested_code nested_tree) = [1, 2]"
    "map end_line (extract_chunks nested_path nested_code nested_tree) = [3, 2]"
    by (simp_all add: nested_chunks make_chunk_def Let_def nested_class_def nested_method_def)
  note walk = extraction_is_preorder_walk [of nested_path nested_code nested_tree]
  from walk X Y e
  have "\<exists>pre mid post. extract_chunks nested_path nested_code nested_tree
      = pre @ make_chunk nested_path nested_code nested_class # mid @
        make_chunk nested_path nested_code nested_method # post"
    by blast
  moreover from walk X Y e wf
  have "start_line (make_chunk nested_path nested_code nested_class)
     \<le> start_line (make_chunk nested_path nested_code nested_method) \<and>
   end_line (make_chunk nested_path nested_code nested_method)
     \<le> end_line (make_chunk nested_path nested_code nested_class)"
    by blast
  moreover from walk wf
  have "sorted (map start_line (extract_chunks nested_path nested_code nested_tree))"
    by blast
  ultimately show ?thesis
    using X Y e wf lines nested_chunks by blast
qed

section \<open>Line numbers\<close>

text \<open>
  Claim C7. Every extracted chunk has \<open>start_line\<close> and \<open>end_line\<close> one more than the
  start and end row of its node, and \<open>lines\<close> is the two numbers in decimal with a hyphen
  between them. \<open>start_line \<le> end_line\<close> holds when the node ends no earlier than it starts,
  as the nodes the parser returns do.
\<close>

theorem line_span_fields:
  "c \<in> set (extract_chunks p code root) \<Longrightarrow>
     \<exists>n \<in> set (preorder root). extractable n \<and> c = make_chunk p code n \<and>
       start_line c = fst (start_point n) + 1 \<and>
       end_line c = fst (end_point n) + 1 \<and>
       lines c = str_nat (start_line c) @ ''-'' @ str_nat (end_line c) \<and>
       (point_le (start_point n) (end_point n) \<longrightarrow> start_line c \<le> end_line c)"
proof -
  assume "c \<in> set (extract_chunks p code root)"
  then obtain n where n: "n \<in> set (preorder root)" "extractable n" "c = make_chunk p code n"
    by (auto simp: in_extract_chunks)
  from n(3) have rows: "start_line c = fst (start_point n) + 1" "end_line c = fst (end_point n) + 1"
    and shown: "lines c = str_nat (start_line c) @ ''-'' @ str_nat (end_line c)"
    by (simp_all add: make_chunk_def Let_def)
  have "start_line c \<le> end_line c" if "point_le (start_point n) (end_point n)"
    using point_le_row [OF that] rows by simp
  with n rows shown show ?thesis by blast
qed

theorem line_span_fields_witness:
  "make_chunk login_path login_code login_function
     \<in> set (extract_chunks login_path login_code login_tree) \<and>
   point_le (start_point login_function) (end_point login_function) \<and>
   start_line (make_chunk login_path login_code login_function) = 10 \<and>
   end_line (make_chunk login_path login_code login_function) = 14 \<and>
   lines (make_chunk login_path login_code login_function) = ''10-14'' \<and>
   (\<exists>n \<in> set (preorder login_tree).
      make_chunk login_path login_code login_function = make_chunk login_path login_code n \<and>
      start_line (make_chunk login_path login_code login_function) = fst (start_point n) + 1)"
proof -
  let ?c = "make_chunk login_path login_code login_function"
  have mem: "?c \<in> set (extract_chunks login_path login_code login_tree)"
    by (simp add: login_chunks)
  have le: "point_le (start_point login_function) (end_point login_function)"
    by (simp add: login_function_def point_le_def)
  have vals: "start_line ?c = 10" "end_line ?c = 14" "lines ?c = ''10-14''"
    by (simp_all add: make_chunk_def Let_def login_function_def str_nat.simps digit_char_def)
  from line_span_fields [OF mem]
  have "\<exists>n \<in> set (preorder login_tree). ?c = make_chunk login_path login_code n \<and>
      start_line ?c = fst (start_point n) + 1"
    by blast
  with mem le vals show ?thesis by blast
qed

section \<open>Tags\<close>

text \<open>
  Claim C10. On each kind of the allow-list, replacing every occurrence of
  \<open>_declaration\<close> by the empty string gives what stripping one trailing \<open>_declaration\<close>
  gives: \<open>class\<close>, \<open>struct\<close>, \<open>function\<close>; so the tag of every chunk built from an
  extractable node is its kind with the suffix stripped. The two operations differ on a
  kind with \<open>_declaration\<close> before its end, such as \<open>protocol_declaration_body\<close>.
\<close>

theorem tag_replace_is_suffix_strip:
  "map (py_replace ''_declaration'' '''') extractable_kinds
     = map (strip_suffix_spec ''_declaration'') extractable_kinds \<and>
   map (py_replace ''_declaration'' '''') extractable_kinds = [''class'', ''struct'', ''function''] \<and>
   (extractable n \<longrightarrow>
      tags (make_chunk p code n) = [strip_suffix_spec ''_declaration'' (node_type n)] \<and>
      tags (make_chunk p code n) \<in> set [[''class''], [''struct''], [''function'']]) \<and>
   py_replace ''_declaration'' '''' ''protocol_declaration_body'' = ''protocol_body'' \<and>
   strip_suffix_spec ''_declaration'' ''protocol_declaration_body'' = ''protocol_declaration_body''"
proof -
  have kinds: "map (py_replace ''_declaration'' '''') extractable_kinds
       = map (strip_suffix_spec ''_declaration'') extractable_kinds"
    "map (py_replace ''_declaration'' '''') extractable_kinds = [''class'', ''struct'', ''function'']"
    by (simp_all add: extractable_kinds_def strip_suffix_spec_def suffix_to_prefix)
  have other: "py_replace ''_declaration'' '''' ''protocol_declaration_body'' = ''protocol_body''"
    "strip_suffix_spec ''_declaration'' ''protocol_declaration_body'' = ''protocol_declaration_body''"
    by (simp_all add: strip_suffix_spec_def suffix_to_prefix)
  have "tags (make_chunk p code n) = [strip_suffix_spec ''_declaration'' (node_type n)] \<and>
      tags (make_chunk p code n) \<in> set [[''class''], [''struct''], [''function'']]"
    if "extractable n"
  proof -
    from that have "node_type n \<in> set extractable_kinds" by (simp add: extractable_def)
    then consider "node_type n = ''class_declaration''" | "node_type n = ''struct_declaration''"
      | "node_type n = ''function_declaration''"
      by (auto simp: extractable_kinds_def)
    then show ?thesis
      by cases (simp_all add: make_chunk_def Let_def strip_suffix_spec_def suffix_to_prefix)
  qed
  with kinds other show ?thesis by blast
qed

theorem tag_replace_is_suffix_strip_witness:
  "extractable nested_class \<and>
   tags (make_chunk nested_path nested_code nested_class) = [''class''] \<and>
   strip_suffix_spec ''_declaration'' (node_type nested_class) = ''class''"
proof -
  have e: "extractable nested_class"
    by (simp add: extractable_def extractable_kinds_def nested_class_def)
  have s: "strip_suffix_spec ''_declaration'' (node_type nested_class) = ''class''"
    by (simp add: nested_class_def strip_suffix_spec_def suffix_to_prefix)
  from tag_replace_is_suffix_strip [of nested_class nested_path nested_code] e
  have "tags (make_chunk nested_path nested_code nested_class)
      = [strip_suffix_spec ''_declaration'' (node_type nested_class)]"
    by blast
  with e s show ?thesis by simp
qed

section \<open>Chunk text\<close>

text \<open>
  \<open>get_text\<close> slices the decoded text, which is indexed by code point, with the offsets the
  parser counted in bytes of the UTF-8 buffer. Where the text is ASCII only, a code point
  is a byte and the slice is what the node spans.
\<close>

lemma utf8_encode_ascii:
  "\<forall>cp \<in> set s. cp < 0x80 \<Longrightarrow> utf8_encode s = map of_nat s"
  by (induction s) (simp_all add: utf8_encode_def utf8_char_def)

lemma get_text_ascii:
  assumes "\<forall>cp \<in> set code. cp < 0x80"
  shows "utf8_encode (get_text code n) = spanned_bytes (utf8_encode code) n"
proof -
  have "\<forall>cp \<in> set (get_text code n). cp < 0x80"
    using assms by (auto simp: get_text_def py_slice_def dest: in_set_takeD in_set_dropD)
  then show ?thesis
    using assms
    by (simp add: utf8_encode_ascii get_text_def spanned_bytes_def py_slice_def take_map drop_map)
qed

lemma nested_method_text:
  "chunk_text (make_chunk nested_path nested_code nested_method) = unicode_of ''func f() {}''"
  by (simp add: make_chunk_def Let_def get_text_def py_slice_def nested_method_def
      nested_code_def unicode_of_def)

lemma cafe_chunks:
  "extract_chunks cafe_path cafe_code cafe_tree = [make_chunk cafe_path cafe_code cafe_function]"
  by (simp add: extract_chunks_preorder cafe_tree_def cafe_function_def extractable_def
      extractable_kinds_def)

lemma cafe_bytes:
  "utf8_encode cafe_code =
     [0x2F, 0x2F, 0x20, 0xC3, 0xA9, 0x0A] @ utf8_encode (unicode_of ''func f() {}'') @ [0x0A]"
  by (simp add: cafe_code_def utf8_encode_def utf8_char_def unicode_of_def)

text \<open>
  Claim C1. The text of a chunk should be what its node spans in the parsed buffer. On
  \<open>Cafe.swift\<close> it is not: the function spans \<open>func f() {}\<close>, bytes 6 to 16 of the buffer,
  and the chunk holds \<open>unc f() {}\<close> and the line feed after it, code points 6 to 16 of the
  text, because the two-byte letter before the function counts once in the text.
\<close>

theorem chunk_text_after_non_ascii:
  "length (utf8_encode cafe_code) = end_byte cafe_tree \<and>
   spanned_bytes (utf8_encode cafe_code) cafe_function = utf8_encode (unicode_of ''func f() {}'') \<and>
   map chunk_text (extract_chunks cafe_path cafe_code cafe_tree) = [unicode_of ''unc f() {}'' @ [10]] \<and>
   utf8_encode (chunk_text (make_chunk cafe_path cafe_code cafe_function))
     \<noteq> spanned_bytes (utf8_encode cafe_code) cafe_function"
proof -
  have len: "length (utf8_encode cafe_code) = end_byte cafe_tree"
    by (simp add: cafe_bytes cafe_tree_def) (simp add: utf8_encode_def utf8_char_def unicode_of_def)
  have span: "spanned_bytes (utf8_encode cafe_code) cafe_function
      = utf8_encode (unicode_of ''func f() {}'')"
    by (simp add: cafe_bytes spanned_bytes_def py_slice_def cafe_function_def)
       (simp add: utf8_encode_def utf8_char_def unicode_of_def)
  have sliced: "chunk_text (make_chunk cafe_path cafe_code cafe_function)
      = unicode_of ''unc f() {}'' @ [10]"
    by (simp add: make_chunk_def Let_def get_text_def py_slice_def cafe_function_def cafe_code_def
        unicode_of_def)
  have "utf8_encode (unicode_of ''unc f() {}'' @ [10]) \<noteq> utf8_encode (unicode_of ''func f() {}'')"
    by (simp add: utf8_encode_def utf8_char_def unicode_of_def)
  with len span sliced show ?thesis by (simp add: cafe_chunks)
qed

section \<open>Decoding failures and unreadable files\<close>

lemma read_text_replace_no_decode_error: "read_text env p Replace \<noteq> Inl UnicodeDecodeError"
  by (simp add: read_text_def split: sum.splits)

lemma load_source_no_decode_error: "fst (load_source env p) \<noteq> Inl UnicodeDecodeError"
  using read_text_replace_no_decode_error [of env p]
  by (auto simp: load_source_def split: sum.splits py_error.splits)

lemma load_source_missing:
  "read_bytes env (path_str p) = Inl msg \<Longrightarrow> load_source env p = (Inl (OSError msg), [])"
  by (simp add: load_source_def read_text_def)

lemma load_source_strict:
  "read_bytes env (path_str p) = Inr bs \<Longrightarrow> decode_strict env bs = Some code \<Longrightarrow>
   load_source env p = (Inr code, [])"
  by (simp add: load_source_def read_text_def)

lemma load_source_replace:
  "read_bytes env (path_str p) = Inr bs \<Longrightarrow> decode_strict env bs = None \<Longrightarrow>
   load_source env p =
     (Inr (decode_replace env bs), [warning_sign @ '' Non-UTF8 bytes replaced in '' @ path_arg p])"
  by (simp add: load_source_def read_text_def)

lemma extract_code_chunks_load:
  "extract_code_chunks env p =
     (case fst (load_source env p) of
        Inl e \<Rightarrow> Inl e
      | Inr code \<Rightarrow> Inr (extract_chunks p code (parse env (utf8_encode code))),
      snd (load_source env p))"
  by (simp add: extract_code_chunks_def Let_def split: prod.splits sum.splits)

text \<open>
  Claim C5. No \<open>UnicodeDecodeError\<close> leaves \<open>extract_code_chunks\<close>. When strict decoding of
  the file's bytes fails, the text is the replacing decoder's, one line naming the file is
  printed, and the chunks of that text are returned; when it succeeds nothing is printed.
  When the file cannot be read, the \<open>OSError\<close> is the result, not an empty list.
\<close>

theorem loader_error_handling:
  "fst (extract_code_chunks env p) \<noteq> Inl UnicodeDecodeError \<and>
   (\<forall>bs. read_bytes env (path_str p) = Inr bs \<and> decode_strict env bs = None \<longrightarrow>
      extract_code_chunks env p =
        (Inr (extract_chunks p (decode_replace env bs)
                (parse env (utf8_encode (decode_replace env bs)))),
         [warning_sign @ '' Non-UTF8 bytes replaced in '' @ path_arg p])) \<and>
   (\<forall>bs code. read_bytes env (path_str p) = Inr bs \<and> decode_strict env bs = Some code \<longrightarrow>
      extract_code_chunks env p =
        (Inr (extract_chunks p code (parse env (utf8_encode code))), [])) \<and>
   (\<forall>msg. read_bytes env (path_str p) = Inl msg \<longrightarrow>
      extract_code_chunks env p = (Inl (OSError msg), []))"
proof (intro conjI allI impI)
  show "fst (extract_code_chunks env p) \<noteq> Inl UnicodeDecodeError"
    using load_source_no_decode_error [of env p]
    by (auto simp: extract_code_chunks_load split: sum.splits)
next
  fix bs assume "read_bytes env (path_str p) = Inr bs \<and> decode_strict env bs = None"
  then show "extract_code_chunks env p =
        (Inr (extract_chunks p (decode_replace env bs)
                (parse env (utf8_encode (decode_replace env bs)))),
         [warning_sign @ '' Non-UTF8 bytes replaced in '' @ path_arg p])"
    by (simp add: extract_code_chunks_load load_source_replace)
next
  fix bs code assume "read_bytes env (path_str p) = Inr bs \<and> decode_strict env bs = Some code"
  then show "extract_code_chunks env p =
        (Inr (extract_chunks p code (parse env (utf8_encode code))), [])"
    by (simp add: extract_code_chunks_load load_source_strict)
next
  fix msg assume "read_bytes env (path_str p) = Inl msg"
  then show "extract_code_chunks env p = (Inl (OSError msg), [])"
    by (simp add: extract_code_chunks_load load_source_missing)
qed

lemma demo_bad:
  "read_bytes demo_env (path_str bad_path) = Inr [0x66, 0xFF]"
  "decode_strict demo_env [0x66, 0xFF] = None"
  "decode_replace demo_env [0x66, 0xFF] = [0x66, 0xFFFD]"
  by (simp_all add: demo_env_def demo_read_bytes_def bad_path_def demo_decode_strict_def
      demo_decode_replace_def)

lemma demo_missing:
  "read_bytes demo_env (path_str missing_path) = Inl ''[Errno 2] No such file or directory''"
  by (simp add: demo_env_def demo_read_bytes_def missing_path_def)

lemma demo_empty:
  "read_bytes demo_env (path_str empty_path) = Inr []"
  "decode_strict demo_env [] = Some []"
  "parse demo_env (utf8_encode []) = Node ''source_file'' (0, 0) (0, 0) 0 0 []"
  by (simp_all add: demo_env_def demo_read_bytes_def empty_path_def demo_decode_strict_def
      demo_parse_def utf8_encode_def utf8_char_def nested_code_def unicode_of_def)

lemma demo_nested:
  "read_bytes demo_env (path_str nested_path) = Inr (utf8_encode nested_code)"
  "decode_strict demo_env (utf8_encode nested_code) = Some nested_code"
  "parse demo_env (utf8_encode nested_code) = nested_tree"
    apply (simp add: demo_env_def demo_read_bytes_def nested_path_def)
   apply (simp add: demo_env_def demo_decode_strict_def nested_code_def utf8_encode_def utf8_char_def unicode_of_def)
  apply (simp add: demo_env_def demo_parse_def)
  done

theorem loader_error_handling_witness:
  "read_bytes demo_env (path_str bad_path) = Inr [0x66, 0xFF] \<and>
   decode_strict demo_env [0x66, 0xFF] = None \<and>
   extract_code_chunks demo_env bad_path =
     (Inr [], [warning_sign @ '' Non-UTF8 bytes replaced in ./Bad.swift'']) \<and>
   read_bytes demo_env (path_str nested_path) = Inr (utf8_encode nested_code) \<and>
   decode_strict demo_env (utf8_encode nested_code) = Some nested_code \<and>
   extract_code_chunks demo_env nested_path =
     (Inr [make_chunk nested_path nested_code nested_class,
           make_chunk nested_path nested_code nested_method], []) \<and>
   read_bytes demo_env (path_str missing_path) = Inl ''[Errno 2] No such file or directory'' \<and>
   extract_code_chunks demo_env missing_path =
     (Inl (OSError ''[Errno 2] No such file or directory''), [])"
proof -
  have tree: "parse demo_env (utf8_encode [0x66, 0xFFFD]) = Node ''source_file'' (0, 0) (0, 4) 0 4 []"
    by (simp add: demo_env_def demo_parse_def utf8_encode_def utf8_char_def nested_code_def
        unicode_of_def)
  have none: "extract_chunks bad_path [0x66, 0xFFFD] (Node ''source_file'' (0, 0) (0, 4) 0 4 []) = []"
    by (simp add: extract_chunks_preorder extractable_def extractable_kinds_def)
  have arg: "path_arg bad_path = ''./Bad.swift''" by (simp add: bad_path_def)
  from loader_error_handling [of demo_env bad_path] demo_bad
  have "extract_code_chunks demo_env bad_path =
     (Inr [], [warning_sign @ '' Non-UTF8 bytes replaced in ./Bad.swift''])"
    by (simp add: tree none arg)
  moreover from loader_error_handling [of demo_env nested_path] demo_nested
  have "extract_code_chunks demo_env nested_path =
     (Inr [make_chunk nested_path nested_code nested_class,
           make_chunk nested_path nested_code nested_method], [])"
    by (simp add: nested_chunks)
  moreover from loader_error_handling [of demo_env missing_path] demo_missing
  have "extract_code_chunks demo_env missing_path =
     (Inl (OSError ''[Errno 2] No such file or directory''), [])"
    by simp
  ultimately show ?thesis using demo_bad demo_nested demo_missing by simp
qed

section \<open>Deep trees and files without declarations\<close>

text \<open>
  With the limit, \<open>recurse\<close> returns what the walk computes when the tree asks for no more
  frames than there is room for, and raises \<open>RecursionError\<close> otherwise.
\<close>

lemma fold_max_le: "fold max xs a \<le> r \<longleftrightarrow> a \<le> r \<and> (\<forall>x \<in> set xs. x \<le> (r::nat))"
  by (induction xs arbitrary: a) auto

lemma frames_needed_unfold:
  "frames_needed extra n =
     max (if extractable n then 1 + extra else 1)
         (1 + fold max (map (frames_needed extra) (children n)) 0)"
  by (cases n) (simp add: extractable_def)

lemma frames_needed_fits:
  "depth + frames_needed extra n \<le> room \<longleftrightarrow>
     depth < room \<and> (extractable n \<longrightarrow> depth + 1 + extra \<le> room) \<and>
     (\<forall>c \<in> set (children n). depth + 1 + frames_needed extra c \<le> room)"
proof -
  have "depth + (1 + fold max (map (frames_needed extra) (children n)) 0) \<le> room \<longleftrightarrow>
      depth < room \<and> (\<forall>c \<in> set (children n). depth + 1 + frames_needed extra c \<le> room)"
  proof (cases "depth < room")
    case True
    have "depth + (1 + fold max (map (frames_needed extra) (children n)) 0) \<le> room \<longleftrightarrow>
        fold max (map (frames_needed extra) (children n)) 0 \<le> room - depth - 1"
      using True by arith
    also have "\<dots> \<longleftrightarrow> (\<forall>c \<in> set (children n). frames_needed extra c \<le> room - depth - 1)"
      by (simp add: fold_max_le)
    also have "\<dots> \<longleftrightarrow> (\<forall>c \<in> set (children n). depth + 1 + frames_needed extra c \<le> room)"
      using True by (intro ball_cong refl) arith
    finally show ?thesis using True by simp
  next
    case False
    then show ?thesis by simp
  qed
  then show ?thesis
    by (subst frames_needed_unfold) (auto simp: max_def)
qed

lemma fold_raised:
  "fold (\<lambda>x acc. case acc of Inl e \<Rightarrow> Inl e | Inr cs \<Rightarrow> f x cs) xs (Inl e) = Inl e"
  by (induction xs) simp_all

lemma fold_limited:
  assumes "\<And>x acc. x \<in> set xs \<Longrightarrow> f x acc = (if ok x then Inr (g x acc) else Inl e)"
  shows "fold (\<lambda>x acc. case acc of Inl e' \<Rightarrow> Inl e' | Inr cs \<Rightarrow> f x cs) xs (Inr acc) =
           (if \<forall>x \<in> set xs. ok x then Inr (fold g xs acc) else Inl e)"
  using assms
proof (induction xs arbitrary: acc)
  case Nil
  show ?case by simp
next
  case (Cons x xs)
  show ?case
  proof (cases "ok x")
    case True
    then show ?thesis using Cons.prems Cons.IH [of "g x acc"] by simp
  next
    case False
    then show ?thesis using Cons.prems by (simp add: fold_raised)
  qed
qed

lemma recurse_limited_eq:
  "recurse_limited room extra p code n depth chunks =
     (if depth + frames_needed extra n \<le> room then Inr (recurse p code n depth chunks)
      else Inl RecursionError)"
proof (induction n arbitrary: depth chunks)
  case (Node ty sp ep sb eb cs)
  let ?n = "Node ty sp ep sb eb cs"
  let ?step = "\<lambda>child acc. case acc of Inl e \<Rightarrow> Inl e
      | Inr chunks' \<Rightarrow> recurse_limited room extra p code child (depth + 1) chunks'"
  let ?walk = "\<lambda>child acc. recurse p code child (depth + 1) acc"
  let ?ok = "\<lambda>c. depth + 1 + frames_needed extra c \<le> room"
  let ?here = "if extractable ?n then chunks @ [make_chunk p code ?n] else chunks"
  have children:
    "fold ?step cs (Inr acc) =
       (if \<forall>c \<in> set cs. ?ok c then Inr (fold ?walk cs acc) else Inl RecursionError)" for acc
    by (rule fold_limited) (simp add: Node.IH)
  have fits: "depth + frames_needed extra ?n \<le> room \<longleftrightarrow>
     depth < room \<and> (extractable ?n \<longrightarrow> depth + 1 + extra \<le> room) \<and> (\<forall>c \<in> set cs. ?ok c)"
    using frames_needed_fits [of depth extra ?n room] by simp
  have walk: "recurse p code ?n depth chunks = fold ?walk cs ?here"
    by (subst recurse.simps) (simp add: Let_def extractable_def)
  have limited: "recurse_limited room extra p code ?n depth chunks =
      (if room \<le> depth then Inl RecursionError
       else if extractable ?n \<and> room < depth + 1 + extra then fold ?step cs (Inl RecursionError)
       else fold ?step cs (Inr ?here))"
    by (subst recurse_limited.simps) (simp add: Let_def extractable_def)
  show ?case
    unfolding limited walk fits children fold_raised by auto
qed

lemma extract_code_chunks_limited_eq:
  assumes "fst (load_source env p) = Inr code"
  shows "fst (extract_code_chunks_limited room extra env p) =
     (if frames_needed extra (parse env (utf8_encode code)) \<le> room
      then Inr (extract_chunks p code (parse env (utf8_encode code)))
      else Inl RecursionError)"
  using assms
  by (cases "load_source env p")
     (simp add: extract_code_chunks_limited_def extract_chunks_limited_def extract_chunks_def
        recurse_limited_eq Let_def)

lemma extract_code_chunks_limited_enough:
  assumes "fst (load_source env p) = Inr code"
    and "frames_needed extra (parse env (utf8_encode code)) \<le> room"
  shows "extract_code_chunks_limited room extra env p = extract_code_chunks env p"
  using assms
  by (cases "load_source env p")
     (simp add: extract_code_chunks_limited_def extract_chunks_limited_def extract_chunks_def
        extract_code_chunks_def recurse_limited_eq Let_def)

lemma readable_loads:
  "read_bytes env (path_str p) = Inr bs \<Longrightarrow> \<exists>code. fst (load_source env p) = Inr code"
  by (cases "decode_strict env bs") (auto simp: load_source_strict load_source_replace)

lemma no_extractable_no_chunks:
  "\<forall>n \<in> set (preorder root). \<not> extractable n \<Longrightarrow> extract_chunks p code root = []"
  by (simp add: extract_chunks_preorder filter_empty_conv)

text \<open>
  Claim C9, amended. For a file that can be read, the loader yields a text. When the
  tree parsed from it has no node of an extractable kind, the result is the empty list
  and no error if the tree is no deeper than the interpreter's call depth allows, and
  \<open>RecursionError\<close> if it is deeper. The empty file is of the first kind.
\<close>

theorem no_declarations_empty_within_call_depth:
  "read_bytes env (path_str p) = Inr bs \<Longrightarrow>
   \<exists>code. fst (load_source env p) = Inr code \<and>
     ((\<forall>n \<in> set (preorder (parse env (utf8_encode code))). \<not> extractable n) \<longrightarrow>
        fst (extract_code_chunks_limited room extra env p) =
          (if frames_needed extra (parse env (utf8_encode code)) \<le> room then Inr []
           else Inl RecursionError))"
proof -
  assume "read_bytes env (path_str p) = Inr bs"
  then obtain code where code: "fst (load_source env p) = Inr code"
    using readable_loads by blast
  have "fst (extract_code_chunks_limited room extra env p) =
          (if frames_needed extra (parse env (utf8_encode code)) \<le> room then Inr []
           else Inl RecursionError)"
    if "\<forall>n \<in> set (preorder (parse env (utf8_encode code))). \<not> extractable n"
    using extract_code_chunks_limited_eq [OF code] no_extractable_no_chunks [OF that] by simp
  with code show ?thesis by blast
qed

theorem no_declarations_empty_within_call_depth_witness:
  "read_bytes demo_env (path_str empty_path) = Inr [] \<and>
   fst (load_source demo_env empty_path) = Inr [] \<and>
   preorder (parse demo_env (utf8_encode [])) = [Node ''source_file'' (0, 0) (0, 0) 0 0 []] \<and>
   \<not> extractable (Node ''source_file'' (0, 0) (0, 0) 0 0 []) \<and>
   frames_needed 1 (parse demo_env (utf8_encode [])) = 1 \<and>
   fst (extract_code_chunks_limited 998 1 demo_env empty_path) = Inr []"
proof -
  have l: "fst (load_source demo_env empty_path) = Inr []"
    by (simp add: load_source_strict [OF demo_empty(1) demo_empty(2)])
  have pre: "preorder (parse demo_env (utf8_encode [])) = [Node ''source_file'' (0, 0) (0, 0) 0 0 []]"
    by (simp add: demo_empty)
  have ne: "\<not> extractable (Node ''source_file'' (0, 0) (0, 0) 0 0 [])"
    by (simp add: extractable_def extractable_kinds_def)
  have fr: "frames_needed 1 (parse demo_env (utf8_encode [])) = 1"
    by (simp add: demo_empty extractable_kinds_def)
  from no_declarations_empty_within_call_depth [OF demo_empty(1), where room = 998 and extra = 1] l pre ne fr
  have "fst (extract_code_chunks_limited 998 1 demo_env empty_path) = Inr []" by auto
  with demo_empty(1) l pre ne fr show ?thesis by blast
qed

text \<open>The tree of \<open>Deep.swift\<close> has no declaration and asks for 1202 frames.\<close>

lemma parens_frames: "frames_needed extra (parens i n) = n + 1"
  by (induction n arbitrary: i) (simp_all add: extractable_kinds_def)

lemma parens_no_declaration: "filter extractable (preorder (parens i n)) = []"
  by (induction n arbitrary: i) (simp_all add: extractable_def extractable_kinds_def)

lemma deep_file:
  "read_bytes deep_env (path_str deep_path) = Inr deep_bytes"
  "decode_strict deep_env deep_bytes = Some deep_code"
  "utf8_encode deep_code = deep_bytes"
  "parse deep_env deep_bytes = deep_tree"
proof -
  show "read_bytes deep_env (path_str deep_path) = Inr deep_bytes"
    by (simp add: deep_env_def deep_path_def)
  show "decode_strict deep_env deep_bytes = Some deep_code"
    by (simp add: deep_env_def demo_decode_strict_def deep_bytes_def deep_code_def list_all_iff)
  have "\<forall>cp \<in> set deep_code. cp < 0x80" by (auto simp: deep_code_def)
  then show "utf8_encode deep_code = deep_bytes"
    by (simp add: utf8_encode_ascii) (simp add: deep_code_def deep_bytes_def)
  show "parse deep_env deep_bytes = deep_tree"
    by (simp add: deep_env_def)
qed

text \<open>
  Claim C9 as stated fails: \<open>Deep.swift\<close> can be read and its tree has no node of an
  extractable kind, but the tree is 1202 levels deep, and with the whole default limit of
  1000 frames as room the extraction raises \<open>RecursionError\<close>.
\<close>

theorem recursion_error_on_deep_file:
  "read_bytes deep_env (path_str deep_path) = Inr deep_bytes \<and>
   fst (load_source deep_env deep_path) = Inr deep_code \<and>
   parse deep_env (utf8_encode deep_code) = deep_tree \<and>
   filter extractable (preorder deep_tree) = [] \<and>
   frames_needed 1 deep_tree = 1202 \<and>
   fst (extract_code_chunks_limited 1000 1 deep_env deep_path) = Inl RecursionError"
proof -
  have l: "fst (load_source deep_env deep_path) = Inr deep_code"
    by (simp add: load_source_strict [OF deep_file(1) deep_file(2)])
  have t: "parse deep_env (utf8_encode deep_code) = deep_tree"
    by (simp add: deep_file)
  have none: "filter extractable (preorder deep_tree) = []"
    by (simp add: deep_tree_def parens_no_declaration extractable_def extractable_kinds_def)
  have fr: "frames_needed 1 deep_tree = 1202"
    by (simp add: deep_tree_def parens_frames extractable_kinds_def)
  have "fst (extract_code_chunks_limited 1000 1 deep_env deep_path) = Inl RecursionError"
    using extract_code_chunks_limited_eq [OF l, where room = 1000 and extra = 1] t fr by simp
  with deep_file(1) l t none fr show ?thesis by blast
qed

section \<open>Failure records and the text listing\<close>

lemma print_results_listing:
  "print_results f i cs out =
     out @ concat (map (\<lambda>(rank, c). listing_entry f rank c) (enumerate i cs))"
proof (induction cs arbitrary: i out)
  case Nil
  show ?case by simp
next
  case (Cons c cs)
  show ?case
    by (simp add: Cons.IH Let_def listing_entry_def split: option.splits)
qed

lemma length_listing:
  "length (concat (map (\<lambda>(rank, c). listing_entry f rank c) (enumerate i cs))) = 3 * length cs"
  by (induction cs arbitrary: i) (simp_all add: listing_entry_def)

lemma query_success:
  "embed_query q = Inr v \<Longrightarrow> semantic_search v k = Inr rs \<Longrightarrow>
   query_racag_cli embed_query semantic_search q k =
     Inr \<lparr> success = True, query = q, results_count = length rs, results = rs, error = None,
           message = ''Retrieved '' @ str_nat (length rs) @ '' relevant chunks'' \<rparr>"
  by (simp add: query_racag_cli_def)

lemma query_failure:
  "embed_query q = Inl (Exception msg) \<or> (\<exists>v. embed_query q = Inr v \<and> semantic_search v k = Inl (Exception msg)) \<Longrightarrow>
   query_racag_cli embed_query semantic_search q k =
     Inr \<lparr> success = False, query = q, results_count = 0, results = [], error = Some msg,
           message = ''Query failed: '' @ msg \<rparr>"
  by (auto simp: query_racag_cli_def)

lemma query_escape:
  "embed_query q = Inl (BaseException msg) \<or> (\<exists>v. embed_query q = Inr v \<and> semantic_search v k = Inl (BaseException msg)) \<Longrightarrow>
   query_racag_cli embed_query semantic_search q k = Inl (BaseException msg)"
  by (auto simp: query_racag_cli_def)

text \<open>
  Claim C8. In the text format a successful query prints the query, the number of
  results returned, and then an entry for each of the first ten results and no more:
  rank from 1, score, file path, line range. The count printed and the structured result
  keep all the results, whatever bound was requested.
\<close>

theorem text_listing_capped_at_ten:
  "embed_query q = Inr v \<Longrightarrow> semantic_search v k = Inr rs \<Longrightarrow>
   (\<exists>out. main embed_query semantic_search dumps f3 \<lparr> arg_query = q, arg_top_k = k, arg_format = Text \<rparr> = Inr out \<and>
      stdout out = [''Query: '' @ q, ''Results: '' @ str_nat (length rs) @ [CHR 0x0A]] @
        concat (map (\<lambda>(rank, c). listing_entry f3 rank c) (enumerate 1 (take 10 rs))) \<and>
      length (stdout out) = 2 + 3 * min 10 (length rs) \<and>
      exit_status out = 0) \<and>
   (\<exists>r. query_racag_cli embed_query semantic_search q k = Inr r \<and> results r = rs \<and>
      results_count r = length rs)"
proof -
  assume e: "embed_query q = Inr v" and s: "semantic_search v k = Inr rs"
  let ?out = "\<lparr> stdout = [''Query: '' @ q, ''Results: '' @ str_nat (length rs) @ [CHR 0x0A]] @
        concat (map (\<lambda>(rank, c). listing_entry f3 rank c) (enumerate 1 (take 10 rs))),
      stderr = [], exit_status = 0 \<rparr>"
  have m: "main embed_query semantic_search dumps f3 \<lparr> arg_query = q, arg_top_k = k, arg_format = Text \<rparr> = Inr ?out"
    by (simp add: main_def query_success [of embed_query q v semantic_search k rs, OF e s] print_results_listing)
  have l: "length (stdout ?out) = 2 + 3 * min 10 (length rs)"
    by (simp add: length_listing min_def)
  from m l have "\<exists>out. main embed_query semantic_search dumps f3 \<lparr> arg_query = q, arg_top_k = k, arg_format = Text \<rparr> = Inr out \<and>
      stdout out = [''Query: '' @ q, ''Results: '' @ str_nat (length rs) @ [CHR 0x0A]] @
        concat (map (\<lambda>(rank, c). listing_entry f3 rank c) (enumerate 1 (take 10 rs))) \<and>
      length (stdout out) = 2 + 3 * min 10 (length rs) \<and>
      exit_status out = 0"
    by (intro exI [of _ ?out]) simp
  moreover have "\<exists>r. query_racag_cli embed_query semantic_search q k = Inr r \<and> results r = rs \<and>
      results_count r = length rs"
    by (simp add: query_success [of embed_query q v semantic_search k rs, OF e s])
  ultimately show ?thesis by blast
qed

lemma upt_12: "[0..<12] = [0, 1, 2, 3, 4, 5, 6, 7, 8, 9, 10, 11 :: nat]"
  by code_simp

lemma demo_hits: "map demo_hit [0..<12] =
  [demo_hit 0, demo_hit 1, demo_hit 2, demo_hit 3, demo_hit 4, demo_hit 5, demo_hit 6,
   demo_hit 7, demo_hit 8, demo_hit 9, demo_hit 10, demo_hit 11]"
  by (simp add: upt_12)

theorem text_listing_capped_at_ten_witness:
  "demo_embed ''authentication flow'' = Inr (map of_char ''authentication flow'') \<and>
   demo_search (map of_char ''authentication flow'') 20 = Inr (map demo_hit [0..<12]) \<and>
   (\<exists>out. main demo_embed demo_search demo_json_dumps demo_format_3f
        \<lparr> arg_query = ''authentication flow'', arg_top_k = 20, arg_format = Text \<rparr> = Inr out \<and>
      length (stdout out) = 32 \<and>
      stdout out ! 1 = ''Results: 12'' @ [CHR 0x0A] \<and>
      stdout out ! 2 = ''1. [0.900] A.swift'' \<and>
      stdout out ! 3 = ''   Lines 1-3'' \<and>
      stdout out ! 29 = ''10. [0.891] A.swift'' \<and>
      exit_status out = 0)"
proof -
  have e: "demo_embed ''authentication flow'' = Inr (map of_char ''authentication flow'')"
    by (simp add: demo_embed_def)
  have s: "demo_search (map of_char ''authentication flow'') 20 = Inr (map demo_hit [0..<12])"
    by (simp add: demo_search_def)
  from text_listing_capped_at_ten [of demo_embed "''authentication flow''"
      "map of_char ''authentication flow''" demo_search 20 "map demo_hit [0..<12]"
      demo_json_dumps demo_format_3f, OF e s]
  obtain out where out: "main demo_embed demo_search demo_json_dumps demo_format_3f
        \<lparr> arg_query = ''authentication flow'', arg_top_k = 20, arg_format = Text \<rparr> = Inr out"
    and std: "stdout out = [''Query: '' @ ''authentication flow'',
          ''Results: '' @ str_nat (length (map demo_hit [0..<12])) @ [CHR 0x0A]] @
        concat (map (\<lambda>(rank, c). listing_entry demo_format_3f rank c)
          (enumerate 1 (take 10 (map demo_hit [0..<12]))))"
    and len: "length (stdout out) = 2 + 3 * min 10 (length (map demo_hit [0..<12]))"
    and ex: "exit_status out = 0"
    by blast
  have len': "length (stdout out) = 32" using len by simp
  have vals: "stdout out ! 1 = ''Results: 12'' @ [CHR 0x0A]"
    "stdout out ! 2 = ''1. [0.900] A.swift''"
    "stdout out ! 3 = ''   Lines 1-3''"
    "stdout out ! 29 = ''10. [0.891] A.swift''"
    unfolding std demo_hits
    by (simp_all add: listing_entry_def demo_hit_def demo_format_3f_def str_nat.simps digit_char_def)
  from out len' vals ex e s show ?thesis by blast
qed

text \<open>
  Claim C6, amended. When the embedding or the search raises an exception that is an
  instance of \<open>Exception\<close>, \<open>query_racag_cli\<close> returns the failure record: the query, a count
  of zero, no results, the exception's message as \<open>error\<close> and within \<open>message\<close>; \<open>main\<close> then
  exits with status 1 in either format, and with status 0 when both capabilities return.
\<close>

theorem exception_becomes_structured_failure:
  "(embed_query q = Inl (Exception msg) \<or> (\<exists>v. embed_query q = Inr v \<and> semantic_search v k = Inl (Exception msg)) \<longrightarrow>
      query_racag_cli embed_query semantic_search q k =
        Inr \<lparr> success = False, query = q, results_count = 0, results = [], error = Some msg,
              message = ''Query failed: '' @ msg \<rparr> \<and>
      main embed_query semantic_search dumps f3 \<lparr> arg_query = q, arg_top_k = k, arg_format = Json \<rparr> =
        Inr \<lparr> stdout = [dumps \<lparr> success = False, query = q, results_count = 0, results = [],
                error = Some msg, message = ''Query failed: '' @ msg \<rparr>],
              stderr = [], exit_status = 1 \<rparr> \<and>
      main embed_query semantic_search dumps f3 \<lparr> arg_query = q, arg_top_k = k, arg_format = Text \<rparr> =
        Inr \<lparr> stdout = [], stderr = [''Error: Query failed: '' @ msg], exit_status = 1 \<rparr>) \<and>
   (\<forall>v rs fmt. embed_query q = Inr v \<and> semantic_search v k = Inr rs \<longrightarrow>
      (\<exists>out. main embed_query semantic_search dumps f3 \<lparr> arg_query = q, arg_top_k = k, arg_format = fmt \<rparr> = Inr out \<and>
         exit_status out = 0))"
proof (intro conjI allI impI)
  assume f: "embed_query q = Inl (Exception msg) \<or> (\<exists>v. embed_query q = Inr v \<and> semantic_search v k = Inl (Exception msg))"
  show "query_racag_cli embed_query semantic_search q k =
        Inr \<lparr> success = False, query = q, results_count = 0, results = [], error = Some msg,
              message = ''Query failed: '' @ msg \<rparr>"
    by (rule query_failure [of embed_query q msg semantic_search k, OF f])
  show "main embed_query semantic_search dumps f3 \<lparr> arg_query = q, arg_top_k = k, arg_format = Json \<rparr> =
        Inr \<lparr> stdout = [dumps \<lparr> success = False, query = q, results_count = 0, results = [],
                error = Some msg, message = ''Query failed: '' @ msg \<rparr>],
              stderr = [], exit_status = 1 \<rparr>"
    by (simp add: main_def query_failure [of embed_query q msg semantic_search k, OF f])
  show "main embed_query semantic_search dumps f3 \<lparr> arg_query = q, arg_top_k = k, arg_format = Text \<rparr> =
        Inr \<lparr> stdout = [], stderr = [''Error: Query failed: '' @ msg], exit_status = 1 \<rparr>"
    by (simp add: main_def query_failure [of embed_query q msg semantic_search k, OF f])
next
  fix v rs fmt
  assume "embed_query q = Inr v \<and> semantic_search v k = Inr rs"
  then have "query_racag_cli embed_query semantic_search q k =
     Inr \<lparr> success = True, query = q, results_count = length rs, results = rs, error = None,
           message = ''Retrieved '' @ str_nat (length rs) @ '' relevant chunks'' \<rparr>"
    by (simp add: query_racag_cli_def)
  then show "\<exists>out. main embed_query semantic_search dumps f3 \<lparr> arg_query = q, arg_top_k = k, arg_format = fmt \<rparr> = Inr out \<and>
         exit_status out = 0"
    by (cases fmt) (simp_all add: main_def)
qed

theorem exception_becomes_structured_failure_witness:
  "failing_embed '''' = Inl (Exception ''empty query'') \<and>
   query_racag_cli failing_embed demo_search '''' 5 =
     Inr \<lparr> success = False, query = '''', results_count = 0, results = [],
           error = Some ''empty query'', message = ''Query failed: empty query'' \<rparr> \<and>
   main failing_embed demo_search demo_json_dumps demo_format_3f
       \<lparr> arg_query = '''', arg_top_k = 5, arg_format = Text \<rparr> =
     Inr \<lparr> stdout = [], stderr = [''Error: Query failed: empty query''], exit_status = 1 \<rparr> \<and>
   demo_embed ''login'' = Inr (map of_char ''login'') \<and>
   demo_search (map of_char ''login'') 5 = Inr (map demo_hit [0..<12]) \<and>
   (\<exists>out. main demo_embed demo_search demo_json_dumps demo_format_3f
       \<lparr> arg_query = ''login'', arg_top_k = 5, arg_format = Json \<rparr> = Inr out \<and>
      exit_status out = 0)"
proof -
  have f: "failing_embed '''' = Inl (Exception ''empty query'')"
    by (simp add: failing_embed_def)
  have e: "demo_embed ''login'' = Inr (map of_char ''login'')"
    by (simp add: demo_embed_def)
  have s: "demo_search (map of_char ''login'') 5 = Inr (map demo_hit [0..<12])"
    by (simp add: demo_search_def)
  note fail = exception_becomes_structured_failure
    [of failing_embed "''''" "''empty query''" demo_search 5 demo_json_dumps demo_format_3f]
  note ok = exception_becomes_structured_failure
    [of demo_embed "''login''" "''empty query''" demo_search 5 demo_json_dumps demo_format_3f]
  from fail f have "query_racag_cli failing_embed demo_search '''' 5 =
     Inr \<lparr> success = False, query = '''', results_count = 0, results = [],
           error = Some ''empty query'', message = ''Query failed: empty query'' \<rparr>"
    by simp
  moreover from fail f have "main failing_embed demo_search demo_json_dumps demo_format_3f
       \<lparr> arg_query = '''', arg_top_k = 5, arg_format = Text \<rparr> =
     Inr \<lparr> stdout = [], stderr = [''Error: Query failed: empty query''], exit_status = 1 \<rparr>"
    by simp
  moreover from ok e s have "\<exists>out. main demo_embed demo_search demo_json_dumps demo_format_3f
       \<lparr> arg_query = ''login'', arg_top_k = 5, arg_format = Json \<rparr> = Inr out \<and>
      exit_status out = 0"
    by blast
  ultimately show ?thesis using f e s by blast
qed

text \<open>
  Claim C6 as stated fails: an exception outside \<open>Exception\<close>, here the \<open>SystemExit\<close>
  raised by the embedding, is not caught by \<open>except Exception\<close>; it leaves
  \<open>query_racag_cli\<close> and \<open>main\<close>, and no failure record is returned.
\<close>

theorem base_exception_escapes:
  "exiting_embed ''authentication flow'' = Inl (BaseException ''OPENAI_API_KEY is not set'') \<and>
   query_racag_cli exiting_embed demo_search ''authentication flow'' 5
     = Inl (BaseException ''OPENAI_API_KEY is not set'') \<and>
   main exiting_embed demo_search demo_json_dumps demo_format_3f
       \<lparr> arg_query = ''authentication flow'', arg_top_k = 5, arg_format = Json \<rparr>
     = Inl (BaseException ''OPENAI_API_KEY is not set'')"
  by (simp add: exiting_embed_def query_racag_cli_def main_def)

end
